theory Spec2Isabelle
  imports Complex_Main "HOL-Library.AList" "HOL-Library.Stream" "HOL-Library.Sublist"
begin

section \<open>Python values\<close>

text \<open>
  A Python \<open>str\<close> is a sequence of Unicode code points; \<open>len\<close> counts code points.
  A character is its code point (\<open>'a'\<close> is 97, the esh of the phoneme sets is 643).
  The substring test \<open>a in b\<close> on two strings is \<^const>\<open>sublist\<close>.
\<close>

type_synonym uchar = nat
type_synonym pystr = "uchar list"

definition str :: "string \<Rightarrow> pystr" where
  "str s = map of_char s"

datatype error =
  KeyError | IndexError | AttributeError | ValueError | ZeroDivisionError | OverflowError

text \<open>
  The outcome of a call: it returns a value, raises an exception, or its retry loops
  have not finished within the given number of iterations.
\<close>

datatype 'a outcome = Returns 'a | Raises error | OutOfFuel

definition bind :: "'a outcome \<Rightarrow> ('a \<Rightarrow> 'b outcome) \<Rightarrow> 'b outcome" where
  "bind m f = (case m of Returns x \<Rightarrow> f x | Raises e \<Rightarrow> Raises e | OutOfFuel \<Rightarrow> OutOfFuel)"

text \<open>\<open>int(x)\<close> on a float truncates towards zero.\<close>

definition py_int :: "real \<Rightarrow> int" where
  "py_int x = (if 0 \<le> x then \<lfloor>x\<rfloor> else \<lceil>x\<rceil>)"

text \<open>\<open>xs[i]\<close>: a negative index counts from the end, an index out of range raises.\<close>

definition getitem :: "'a list \<Rightarrow> int \<Rightarrow> 'a outcome" where
  "getitem xs i =
     (if 0 \<le> i \<and> i < int (length xs) then Returns (xs ! nat i)
      else if i < 0 \<and> - int (length xs) \<le> i then Returns (xs ! nat (int (length xs) + i))
      else Raises IndexError)"

text \<open>\<open>sep.join(parts)\<close>.\<close>

fun join :: "pystr \<Rightarrow> pystr list \<Rightarrow> pystr" where
  "join sep [] = []"
| "join sep [x] = x"
| "join sep (x # y # zs) = x @ sep @ join sep (y # zs)"

subsection \<open>Dictionaries\<close>

text \<open>
  A \<open>dict\<close> is an association list in insertion order with distinct keys:
  \<^const>\<open>AList.update\<close> replaces the value of a present key in place and appends a new
  key at the end, as an assignment \<open>d[k] = v\<close> does. \<open>d.update(e)\<close> assigns the items
  of \<open>e\<close> in order.
\<close>

type_synonym ('k, 'v) dict = "('k \<times> 'v) list"

definition dict_update :: "('k, 'v) dict \<Rightarrow> ('k, 'v) dict \<Rightarrow> ('k, 'v) dict" where
  "dict_update d e = fold (\<lambda>(k, v). AList.update k v) e d"

definition dict_values :: "('k, 'v) dict \<Rightarrow> 'v list" where
  "dict_values d = map snd d"

text \<open>
  \<open>collections.defaultdict(factory)\<close>: reading \<open>d[k]\<close> for a missing key stores
  the default under \<open>k\<close> and returns it.
\<close>

definition dd_touch :: "'v \<Rightarrow> 'k \<Rightarrow> ('k, 'v) dict \<Rightarrow> ('k, 'v) dict" where
  "dd_touch dflt k d = (case map_of d k of None \<Rightarrow> d @ [(k, dflt)] | Some v \<Rightarrow> d)"

definition dd_get :: "'v \<Rightarrow> 'k \<Rightarrow> ('k, 'v) dict \<Rightarrow> 'v" where
  "dd_get dflt k d = (case map_of d k of None \<Rightarrow> dflt | Some v \<Rightarrow> v)"

section \<open>Floats\<close>

text \<open>
  A Python float is an IEEE 754 double: a real number with a 53-bit significand and an
  exponent of at least \<open>-1022\<close>. \<open>double x\<close> is the double nearest to \<open>x\<close>, the one
  with the even significand when two are equally near; every arithmetic operation and
  every float literal is the exact result rounded by \<open>double\<close>. \<open>expo x\<close> is the exponent
  of the binade of \<open>x\<close>, and \<open>2 powi (expo x - 52)\<close> the distance between the doubles
  there.
\<close>

definition round_even :: "real \<Rightarrow> int" where
  "round_even y =
     (let f = \<lfloor>y\<rfloor>; d = y - of_int f
      in if d < 1 / 2 then f else if 1 / 2 < d then f + 1 else if even f then f else f + 1)"

definition expo :: "real \<Rightarrow> int" where
  "expo x = max \<lfloor>log 2 \<bar>x\<bar>\<rfloor> (- 1022)"

definition double :: "real \<Rightarrow> real" where
  "double x =
     (if x = 0 then 0
      else sgn x * of_int (round_even (\<bar>x\<bar> / 2 powi (expo x - 52))) * 2 powi (expo x - 52))"

text \<open>
  \<open>x ** y\<close> for a float \<open>x \<ge> 0\<close>: \<open>1.0\<close> for \<open>y = 0\<close>; \<open>0.0 ** y\<close> raises
  \<open>ZeroDivisionError\<close> for a negative \<open>y\<close> and is \<open>0.0\<close> otherwise; else the power,
  correctly rounded, and \<open>OverflowError\<close> when that is \<open>2 ^ 1024\<close> or more.
  (\<open>rd.random()\<close> is never negative.)
\<close>

definition float_pow :: "real \<Rightarrow> real \<Rightarrow> real outcome" where
  "float_pow x y =
     (if y = 0 then Returns 1
      else if x = 0 then (if y < 0 then Raises ZeroDivisionError else Returns 0)
      else
        (let r = double (x powr y)
         in if 2 ^ 1024 \<le> r then Raises OverflowError else Returns r))"

section \<open>The random source\<close>

text \<open>
  The module \<open>random\<close> is a stream of raw draws. \<open>rd.random()\<close> turns one draw into a
  float with 53 random bits, \<open>m / 2^53\<close> with \<open>0 \<le> m < 2^53\<close>, a double of \<open>[0, 1)\<close>;
  \<open>rd.randrange(n)\<close> turns one draw into an integer of \<open>[0, n)\<close> and raises
  \<open>ValueError\<close> for an empty range.
\<close>

type_synonym rng = "nat stream"

definition random :: "rng \<Rightarrow> real \<times> rng" where
  "random g = (real (shd g mod 2 ^ 53) / 2 ^ 53, stl g)"

definition randrange :: "nat \<Rightarrow> rng \<Rightarrow> (nat \<times> rng) outcome" where
  "randrange n g = (if n = 0 then Raises ValueError else Returns (shd g mod n, stl g))"

section \<open>The weighted chooser\<close>

text \<open>
  \<open>choose(lst, exp=2)\<close>: \<open>index = int((rd.random()**exp) * len(lst))\<close>, then \<open>lst[index]\<close>.
  (\<open>choose\<close> is the binomial coefficient in HOL, hence \<open>choose_lst\<close>.)
  \<open>choose_index\<close> and \<open>choose_at\<close> are the two lines of the body at a given value \<open>u\<close>
  of \<open>rd.random()\<close>: the power, the product with the length, both rounded, and the
  truncation; \<open>int\<close> raises \<open>OverflowError\<close> on an infinite product. The exponent is a
  real number: an \<open>int\<close> or a \<open>float\<close>. A list has fewer than \<open>2 ^ 53\<close> elements (it
  would not fit in memory otherwise), so that \<open>len(lst)\<close> is a float exactly: \<open>len\<close>
  reads a longer list as one of \<open>2 ^ 53\<close> elements.
\<close>

definition len :: "'a list \<Rightarrow> nat" where
  "len lst = min (length lst) (2 ^ 53)"

definition choose_index :: "nat \<Rightarrow> real \<Rightarrow> real \<Rightarrow> int outcome" where
  "choose_index n expn u =
     bind (float_pow u expn) (\<lambda>p.
       let t = double (p * real n)
       in if 2 ^ 1024 \<le> \<bar>t\<bar> then Raises OverflowError else Returns (py_int t))"

definition choose_at :: "'a list \<Rightarrow> real \<Rightarrow> real \<Rightarrow> 'a outcome" where
  "choose_at lst expn u = bind (choose_index (len lst) expn u) (getitem lst)"

definition choose_lst :: "'a list \<Rightarrow> real \<Rightarrow> rng \<Rightarrow> ('a \<times> rng) outcome" where
  "choose_lst lst expn g =
     (case random g of (u, g') \<Rightarrow> bind (choose_at lst expn u) (\<lambda>x. Returns (x, g')))"

section \<open>Restrictions\<close>

text \<open>
  The restriction patterns of the source are literal strings and \<open>r'(.)\1'\<close>, the same
  character twice in a row, where \<open>.\<close> matches every character but the newline (10).
  \<open>re.search(r, syll)\<close> finds a literal anywhere in \<open>syll\<close>.
\<close>

datatype restriction = Literal pystr | Repeated

fun has_repeat :: "pystr \<Rightarrow> bool" where
  "has_repeat (a # b # cs) = ((a = b \<and> a \<noteq> 10) \<or> has_repeat (b # cs))"
| "has_repeat cs = False"

fun re_search :: "restriction \<Rightarrow> pystr \<Rightarrow> bool" where
  "re_search (Literal p) s = sublist p s"
| "re_search Repeated s = has_repeat s"

definition RESTRICTIONS :: "restriction list" where
  "RESTRICTIONS =
     [Literal (str ''ss''), Literal [643, 643], Literal [643, 115], Literal [115, 643],
      Literal [102, 115], Literal [102, 643], Literal (str ''lr''), Literal (str ''rl''),
      Repeated]"

section \<open>Orthography\<close>

definition ORTHO_DEFAULT_items :: "(pystr, pystr) dict" where
  "ORTHO_DEFAULT_items =
     [([643], str ''sh''), ([658], str ''zh''), ([679], str ''ch''), ([676], str ''j''),
      ([331], str ''ng''), (str ''j'', str ''y''), (str ''x'', str ''kh''),
      ([611], str ''gh''), ([660], [8216]),
      (str ''A'', [225]), (str ''E'', [233]), (str ''I'', [237]), (str ''O'', [243]),
      (str ''U'', [250])]"

definition CON_ORTHO :: "(pystr, pystr) dict list" where
  "CON_ORTHO =
     [[(str ''default'', str ''None'')],
      [([643], [353]), ([658], [382]), ([679], [269]), ([676], [487]), (str ''j'', str ''j'')],
      [([643], str ''sch''), ([658], str ''zh''), ([679], str ''tsch''), ([676], str ''dz''),
       (str ''j'', str ''j''), (str ''x'', str ''ch'')],
      [([643], str ''ch''), ([658], str ''j''), ([679], str ''tch''), ([676], str ''dj''),
       (str ''x'', str ''kh'')],
      [([643], str ''x''), ([679], str ''q''), ([676], str ''j'')]]"

definition VOW_ORTHO :: "(pystr, pystr) dict list" where
  "VOW_ORTHO =
     [[(str ''default'', str ''None'')],
      [(str ''A'', [228]), (str ''E'', [235]), (str ''I'', [239]), (str ''O'', [246]),
       (str ''U'', [252])],
      [(str ''A'', str ''au''), (str ''E'', str ''ei''), (str ''I'', str ''ie''),
       (str ''O'', str ''ou''), (str ''U'', str ''oo'')],
      [(str ''A'', [226]), (str ''E'', [234]), (str ''I'', str ''y''), (str ''O'', [244]),
       (str ''U'', str ''w'')],
      [(str ''A'', str ''aa''), (str ''E'', str ''ee''), (str ''I'', str ''ii''),
       (str ''O'', str ''oo''), (str ''U'', str ''uu'')]]"

text \<open>
  The module-level name \<open>ORTHO_DEFAULT\<close> and the class attribute \<open>Orthography.ortho\<close>
  are references to dict objects in a store. The class body \<open>ortho = ORTHO_DEFAULT\<close>
  binds the attribute to the object the module-level name is bound to: no copy is made.
\<close>

type_synonym ref = nat

record globals =
  heap :: "ref \<Rightarrow> (pystr, pystr) dict"
  ORTHO_DEFAULT :: ref
  Orthography_ortho :: ref

definition module_init :: globals where
  "module_init =
     \<lparr>heap = (\<lambda>r. []) (0 := ORTHO_DEFAULT_items), ORTHO_DEFAULT = 0, Orthography_ortho = 0\<rparr>"

record Orthography =
  c_ortho :: "(pystr, pystr) dict option"
  v_ortho :: "(pystr, pystr) dict option"
  joiner :: pystr

text \<open>
  \<open>Orthography.__init__\<close>: the instance has no \<open>ortho\<close> attribute of its own, so
  \<open>self.ortho\<close> is the class attribute and \<open>self.ortho.update(...)\<close> changes the object
  it refers to.
\<close>

definition update_opt :: "(pystr, pystr) dict option \<Rightarrow> (pystr, pystr) dict \<Rightarrow> (pystr, pystr) dict" where
  "update_opt overlay d = (case overlay of None \<Rightarrow> d | Some e \<Rightarrow> dict_update d e)"

definition Orthography_init ::
  "(pystr, pystr) dict option \<Rightarrow> (pystr, pystr) dict option \<Rightarrow> pystr \<Rightarrow> globals
     \<Rightarrow> Orthography \<times> globals" where
  "Orthography_init c v j G =
     (let self = \<lparr>c_ortho = c, v_ortho = v, joiner = j\<rparr>;
          r = Orthography_ortho G;
          G1 = G\<lparr>heap := (heap G) (r := update_opt (c_ortho self) (heap G r))\<rparr>;
          G2 = G1\<lparr>heap := (heap G1) (r := update_opt (v_ortho self) (heap G1 r))\<rparr>
      in (self, G2))"

definition Orthography_getitem :: "globals \<Rightarrow> Orthography \<Rightarrow> pystr \<Rightarrow> pystr outcome" where
  "Orthography_getitem G self key =
     (case map_of (heap G (Orthography_ortho G)) key of
        None \<Rightarrow> Raises KeyError
      | Some v \<Rightarrow> Returns v)"

text \<open>
  \<open>Mapping.get(key, default)\<close>, inherited from \<open>collections.Mapping\<close>: \<open>self[key]\<close>,
  and the default on \<open>KeyError\<close> (the only exception \<open>__getitem__\<close> raises).
\<close>

definition Orthography_get :: "globals \<Rightarrow> Orthography \<Rightarrow> pystr \<Rightarrow> pystr \<Rightarrow> pystr" where
  "Orthography_get G self key dflt =
     (case Orthography_getitem G self key of Returns v \<Rightarrow> v | Raises e \<Rightarrow> dflt | OutOfFuel \<Rightarrow> dflt)"

section \<open>BasicLanguage\<close>

text \<open>
  A pool is \<open>None\<close> or a string. The three registries are \<open>defaultdict\<close>s. The keys of
  \<open>phonemes\<close> are the one-character strings of the pattern; a phoneme set is a string,
  a phone is one character of it, and the list \<open>phones\<close> joined by \<open>''\<close> is the string of
  its characters.
\<close>

type_synonym pool = "pystr option"

record BasicLanguage =
  phonemes :: "(pystr, pystr) dict"
  ortho :: "Orthography option"
  syll :: pystr
  min_syll :: int
  max_syll :: int
  restricts :: "restriction list"
  morphemes :: "(pool, pystr list) dict"
  words :: "(pool, pystr list) dict"
  names :: "(pool, pystr set) dict"
  min_char :: nat
  max_char :: nat

definition BasicLanguage_init ::
  "(pystr, pystr) dict \<Rightarrow> pystr \<Rightarrow> Orthography option \<Rightarrow> int \<Rightarrow> int \<Rightarrow> restriction list
     \<Rightarrow> BasicLanguage" where
  "BasicLanguage_init ph sy ort mn mx rs =
     \<lparr>phonemes = ph, ortho = ort, syll = sy, min_syll = mn, max_syll = mx, restricts = rs,
      morphemes = [], words = [], names = [],
      min_char = (if length sy < 3 then length sy + 1 else length sy),
      max_char = (if length sy < 3 then length sy * 4 else length sy * 3)\<rparr>"

definition transliterate :: "globals \<Rightarrow> BasicLanguage \<Rightarrow> pystr \<Rightarrow> pystr" where
  "transliterate G L s =
     (case ortho L of
        None \<Rightarrow> s
      | Some ort \<Rightarrow> concat (map (\<lambda>c. Orthography_get G ort [c] [c]) s))"

text \<open>The \<open>for spec in self.syll\<close> loop of \<open>gen_syllable\<close>; 63 is \<open>'?'\<close>.\<close>

fun gen_phones :: "BasicLanguage \<Rightarrow> pystr \<Rightarrow> pystr \<Rightarrow> rng \<Rightarrow> (pystr \<times> rng) outcome" where
  "gen_phones L [] phones g = Returns (phones, g)"
| "gen_phones L (spec # rest) phones g =
     (if spec = 63 then
        (case random g of (u, g1) \<Rightarrow>
           gen_phones L rest (if 1 / 2 < u then butlast phones else phones) g1)
      else
        (case map_of (phonemes L) [spec] of
           None \<Rightarrow> Raises KeyError
         | Some cands \<Rightarrow>
             (case choose_lst cands 2 g of
                Returns (p, g1) \<Rightarrow> gen_phones L rest (phones @ [p]) g1
              | Raises e \<Rightarrow> Raises e
              | OutOfFuel \<Rightarrow> OutOfFuel)))"

fun gen_syllable :: "globals \<Rightarrow> nat \<Rightarrow> BasicLanguage \<Rightarrow> rng \<Rightarrow> (pystr \<times> rng) outcome" where
  "gen_syllable G 0 L g = OutOfFuel"
| "gen_syllable G (Suc n) L g =
     bind (gen_phones L (syll L) [] g) (\<lambda>(syl, g1).
       if list_ex (\<lambda>r. re_search r syl) (restricts L) then gen_syllable G n L g1
       else Returns (transliterate G L syl, g1))"

text \<open>
  \<open>x in d.values()\<close> compares \<open>x\<close> with every value of the dict by \<open>==\<close>. The values of
  the morpheme and word registries are lists, the item looked for is a string, and a
  string is never equal to a list.
\<close>

datatype pyval = Str pystr | List "pystr list"

definition py_in :: "pyval \<Rightarrow> pyval list \<Rightarrow> bool" where
  "py_in x vs = (x \<in> set vs)"

definition list_append :: "pool \<Rightarrow> pystr \<Rightarrow> (pool, pystr list) dict \<Rightarrow> (pool, pystr list) dict" where
  "list_append pool x d =
     (let d1 = dd_touch [] pool d in AList.update pool (dd_get [] pool d1 @ [x]) d1)"

fun get_morpheme_while ::
  "globals \<Rightarrow> nat \<Rightarrow> BasicLanguage \<Rightarrow> pool \<Rightarrow> pystr list \<Rightarrow> nat \<Rightarrow> rng
     \<Rightarrow> (pystr \<times> BasicLanguage \<times> rng) outcome" where
  "get_morpheme_while G 0 L pool morph_list extras g = OutOfFuel"
| "get_morpheme_while G (Suc n) L pool morph_list extras g =
     bind (randrange (length morph_list + extras) g) (\<lambda>(k, g1).
       if k < length morph_list then Returns (morph_list ! k, L, g1)
       else
         bind (gen_syllable G n L g1) (\<lambda>(new_morph, g2).
           if \<not> py_in (Str new_morph) (map List (dict_values (morphemes L))) then
             Returns (new_morph, L\<lparr>morphemes := list_append pool new_morph (morphemes L)\<rparr>, g2)
           else get_morpheme_while G n L pool morph_list extras g2))"

definition get_morpheme ::
  "globals \<Rightarrow> nat \<Rightarrow> BasicLanguage \<Rightarrow> pool \<Rightarrow> rng \<Rightarrow> (pystr \<times> BasicLanguage \<times> rng) outcome" where
  "get_morpheme G n L pool g =
     (let L1 = L\<lparr>morphemes := dd_touch [] pool (morphemes L)\<rparr>;
          morph_list = dd_get [] pool (morphemes L1);
          extras = (if pool = None then 10 else 1)
      in get_morpheme_while G n L1 pool morph_list extras g)"

text \<open>
  The list comprehension of \<open>gen_word\<close>: one \<open>get_morpheme(pool)\<close> for every element of
  \<open>range(self.min_syll, self.max_syll+1)\<close>, which has \<open>max(0, max_syll + 1 - min_syll)\<close>
  elements.
\<close>

fun get_morphemes ::
  "globals \<Rightarrow> nat \<Rightarrow> nat \<Rightarrow> BasicLanguage \<Rightarrow> pool \<Rightarrow> rng
     \<Rightarrow> (pystr list \<times> BasicLanguage \<times> rng) outcome" where
  "get_morphemes G n 0 L pool g = Returns ([], L, g)"
| "get_morphemes G n (Suc k) L pool g =
     bind (get_morpheme G n L pool g) (\<lambda>(m, L1, g1).
       bind (get_morphemes G n k L1 pool g1) (\<lambda>(ms, L2, g2). Returns (m # ms, L2, g2)))"

definition gen_word ::
  "globals \<Rightarrow> nat \<Rightarrow> BasicLanguage \<Rightarrow> pool \<Rightarrow> rng \<Rightarrow> (pystr \<times> BasicLanguage \<times> rng) outcome" where
  "gen_word G n L pool g =
     bind (get_morphemes G n (nat (max_syll L + 1 - min_syll L)) L pool g)
       (\<lambda>(ms, L1, g1). Returns (concat ms, L1, g1))"

fun get_word_while ::
  "globals \<Rightarrow> nat \<Rightarrow> BasicLanguage \<Rightarrow> pool \<Rightarrow> pystr list \<Rightarrow> nat \<Rightarrow> rng
     \<Rightarrow> (pystr \<times> BasicLanguage \<times> rng) outcome" where
  "get_word_while G 0 L pool word_list extras g = OutOfFuel"
| "get_word_while G (Suc n) L pool word_list extras g =
     bind (randrange (length word_list + extras) g) (\<lambda>(k, g1).
       if k < length word_list then Returns (word_list ! k, L, g1)
       else
         bind (gen_word G n L pool g1) (\<lambda>(new_word, L1, g2).
           if \<not> py_in (Str new_word) (map List (dict_values (words L1))) then
             Returns (new_word, L1\<lparr>words := list_append pool new_word (words L1)\<rparr>, g2)
           else get_word_while G n L1 pool word_list extras g2))"

definition get_word ::
  "globals \<Rightarrow> nat \<Rightarrow> BasicLanguage \<Rightarrow> pool \<Rightarrow> rng \<Rightarrow> (pystr \<times> BasicLanguage \<times> rng) outcome" where
  "get_word G n L pool g =
     (let L1 = L\<lparr>words := dd_touch [] pool (words L)\<rparr>;
          word_list = dd_get [] pool (words L1);
          extras = (if pool = None then 3 else 2)
      in get_word_while G n L1 pool word_list extras g)"

definition check_unique :: "BasicLanguage \<Rightarrow> pystr \<Rightarrow> bool" where
  "check_unique L name =
     (\<forall>cat \<in> set (dict_values (names L)). \<forall>other_name \<in> cat.
        \<not> (sublist name other_name \<or> sublist other_name name))"

text \<open>\<open>self.ortho.joiner\<close> raises \<open>AttributeError\<close> when \<open>ortho\<close> is \<open>None\<close>.\<close>

definition ortho_joiner :: "BasicLanguage \<Rightarrow> pystr outcome" where
  "ortho_joiner L = (case ortho L of None \<Rightarrow> Raises AttributeError | Some ort \<Rightarrow> Returns (joiner ort))"

definition set_add :: "pool \<Rightarrow> pystr \<Rightarrow> (pool, pystr set) dict \<Rightarrow> (pool, pystr set) dict" where
  "set_add pool x d =
     (let d1 = dd_touch {} pool d in AList.update pool (insert x (dd_get {} pool d1)) d1)"

text \<open>
  One pass through the body of the \<open>while True\<close> loop of \<open>gen_name\<close>, down to the
  candidate \<open>name\<close> that reaches the length test; \<open>None\<close> is the \<open>continue\<close> taken when
  the two parts are equal. \<open>str.capitalize\<close> is a parameter. The literals \<open>0.6\<close>
  and \<open>0.1\<close> are the doubles nearest to \<open>6 / 10\<close> and \<open>1 / 10\<close>; \<open>0.5\<close> is exact.
\<close>

definition gen_name_candidate ::
  "globals \<Rightarrow> (pystr \<Rightarrow> pystr) \<Rightarrow> nat \<Rightarrow> BasicLanguage \<Rightarrow> pool \<Rightarrow> pystr \<Rightarrow> pystr \<Rightarrow> rng
     \<Rightarrow> (pystr option \<times> BasicLanguage \<times> rng) outcome" where
  "gen_name_candidate G capitalize n L pool genitive definitive g =
     (case random g of (u1, g1) \<Rightarrow>
        bind
          (if u1 < 1 / 2 then
             bind (get_word G n L pool g1) (\<lambda>(w, L1, g2). Returns (Some (capitalize w), L1, g2))
           else
             (case random g1 of (u2, g2) \<Rightarrow>
                bind (get_word G n L (if u2 < double (6 / 10) then pool else None) g2) (\<lambda>(w1, L1, g3).
                  case random g3 of (u3, g4) \<Rightarrow>
                    bind (get_word G n L1 (if u3 < double (6 / 10) then pool else None) g4) (\<lambda>(w2, L2, g5).
                      let n_part1 = capitalize w1; n_part2 = capitalize w2 in
                      if n_part1 = n_part2 then Returns (None, L2, g5)
                      else
                        (case random g5 of (u4, g6) \<Rightarrow>
                           bind (ortho_joiner L2) (\<lambda>j.
                             Returns
                               (Some (join j (if u4 < 1 / 2 then [n_part1, n_part2]
                                              else [n_part1, genitive, n_part2])),
                                L2, g6)))))))
          (\<lambda>(c, L1, g2).
             case c of
               None \<Rightarrow> Returns (None, L1, g2)
             | Some name \<Rightarrow>
                 (case random g2 of (u5, g3) \<Rightarrow>
                    if u5 < double (1 / 10) then
                      bind (ortho_joiner L1) (\<lambda>j. Returns (Some (join j [definitive, name]), L1, g3))
                    else Returns (Some name, L1, g3))))"

fun gen_name_while ::
  "globals \<Rightarrow> (pystr \<Rightarrow> pystr) \<Rightarrow> nat \<Rightarrow> BasicLanguage \<Rightarrow> pool \<Rightarrow> pystr \<Rightarrow> pystr \<Rightarrow> rng
     \<Rightarrow> (pystr \<times> BasicLanguage \<times> rng) outcome" where
  "gen_name_while G capitalize 0 L pool genitive definitive g = OutOfFuel"
| "gen_name_while G capitalize (Suc n) L pool genitive definitive g =
     bind (gen_name_candidate G capitalize n L pool genitive definitive g) (\<lambda>(c, L1, g1).
       case c of
         None \<Rightarrow> gen_name_while G capitalize n L1 pool genitive definitive g1
       | Some name \<Rightarrow>
           if \<not> (min_char L1 \<le> length name \<and> length name \<le> max_char L1 * 2) then
             gen_name_while G capitalize n L1 pool genitive definitive g1
           else if check_unique L1 name then
             Returns (name, L1\<lparr>names := set_add pool name (names L1)\<rparr>, g1)
           else gen_name_while G capitalize n L1 pool genitive definitive g1)"

definition gen_name ::
  "globals \<Rightarrow> (pystr \<Rightarrow> pystr) \<Rightarrow> nat \<Rightarrow> BasicLanguage \<Rightarrow> pool \<Rightarrow> rng
     \<Rightarrow> (pystr \<times> BasicLanguage \<times> rng) outcome" where
  "gen_name G capitalize n L pool g =
     bind (get_morpheme G n L (Some (str ''of'')) g) (\<lambda>(genitive, L1, g1).
       bind (get_morpheme G n L1 (Some (str ''the'')) g1) (\<lambda>(definitive, L2, g2).
         gen_name_while G capitalize n L2 pool genitive definitive g2))"

text \<open>A caller: one \<open>gen_name\<close> call for every pool of a list, in order.\<close>

fun gen_name_calls ::
  "globals \<Rightarrow> (pystr \<Rightarrow> pystr) \<Rightarrow> nat \<Rightarrow> BasicLanguage \<Rightarrow> pool list \<Rightarrow> rng
     \<Rightarrow> (pystr list \<times> BasicLanguage \<times> rng) outcome" where
  "gen_name_calls G capitalize n L [] g = Returns ([], L, g)"
| "gen_name_calls G capitalize n L (pool # pools) g =
     bind (gen_name G capitalize n L pool g) (\<lambda>(name, L1, g1).
       bind (gen_name_calls G capitalize n L1 pools g1) (\<lambda>(ns, L2, g2).
         Returns (name # ns, L2, g2)))"

section \<open>Configurations and stated properties\<close>

text \<open>
  The configuration errors of the specification: the first token of a syllable pattern,
  other than \<open>'?'\<close>, whose role is absent from the phoneme mapping (\<open>KeyError\<close>) or has
  no candidate (\<open>IndexError\<close>).
\<close>

fun config_error :: "(pystr, pystr) dict \<Rightarrow> pystr \<Rightarrow> error option" where
  "config_error ph [] = None"
| "config_error ph (spec # rest) =
     (if spec = 63 then config_error ph rest
      else
        (case map_of ph [spec] of
           None \<Rightarrow> Some KeyError
         | Some cands \<Rightarrow> if cands = [] then Some IndexError else config_error ph rest))"

text \<open>\<open>name\<close> is a member of the name set stored under \<open>pool\<close>.\<close>

definition stored :: "(pool, pystr set) dict \<Rightarrow> pool \<Rightarrow> pystr \<Rightarrow> bool" where
  "stored d pool name = (\<exists>cat. map_of d pool = Some cat \<and> name \<in> cat)"

text \<open>
  No stored name is a substring of another stored name, in the same pool or in another
  one; in particular no name is stored under two pools.
\<close>

definition substring_free :: "(pool, pystr set) dict \<Rightarrow> bool" where
  "substring_free d =
     (\<forall>p1 n1 p2 n2. stored d p1 n1 \<and> stored d p2 n2 \<and> (p1, n1) \<noteq> (p2, n2) \<longrightarrow> \<not> sublist n1 n2)"

text \<open>
  In a table every character of every display string is either no key or a key for
  itself.
\<close>

definition display_stable :: "(pystr, pystr) dict \<Rightarrow> bool" where
  "display_stable d =
     list_all (\<lambda>(k, v). list_all (\<lambda>c. map_of d [c] = None \<or> map_of d [c] = Some [c]) v) d"

text \<open>\<open>str.capitalize\<close> on ASCII letters, for the examples.\<close>

fun capitalize_ascii :: "pystr \<Rightarrow> pystr" where
  "capitalize_ascii [] = []"
| "capitalize_ascii (c # cs) =
     (if 97 \<le> c \<and> c \<le> 122 then c - 32 else c)
       # map (\<lambda>d. if 65 \<le> d \<and> d \<le> 90 then d + 32 else d) cs"

text \<open>The languages and the random sources of the examples.\<close>

definition lang_pa :: "Orthography option \<Rightarrow> int \<Rightarrow> int \<Rightarrow> BasicLanguage" where
  "lang_pa ort mn mx =
     BasicLanguage_init [(str ''C'', str ''p''), (str ''V'', str ''a'')] (str ''CVC'') ort mn mx
       RESTRICTIONS"

definition lang_pta :: BasicLanguage where
  "lang_pta =
     BasicLanguage_init [(str ''C'', str ''pt''), (str ''V'', str ''a'')] (str ''CVC'')
       (Some \<lparr>c_ortho = None, v_ortho = None, joiner = str '' ''\<rparr>) 1 1 RESTRICTIONS"

definition lang_A :: "Orthography option \<Rightarrow> BasicLanguage" where
  "lang_A ort = BasicLanguage_init [(str ''V'', str ''A'')] (str ''V'') ort 1 1 RESTRICTIONS"

text \<open>The first \<open>Orthography\<close> built after the module is loaded, from two styles.\<close>

definition ortho_of :: "nat \<Rightarrow> nat \<Rightarrow> Orthography \<times> globals" where
  "ortho_of c v =
     Orthography_init (Some (CON_ORTHO ! c)) (Some (VOW_ORTHO ! v)) (str '' '') module_init"

definition two_names_rng :: rng where
  "two_names_rng =
     shift [0, 0, 0, 0, 0, 0, 0, 0, 0, 0, 0, 0, 0, 0, 0,
            0, 0, 0, 1, 1, 6755399441055744, 0, 0, 4503599627370496] (sconst 0)"

section \<open>Properties\<close>

subsection \<open>Evaluation\<close>

lemma str_simps: "str [] = []" "str (c # cs) = of_char c # str cs"
  by (simp_all add: str_def)

lemma bind_simps:
  "bind (Returns x) f = f x" "bind (Raises e) f = Raises e" "bind OutOfFuel f = OutOfFuel"
  by (simp_all add: bind_def)

lemma bind_weak_cong: "m = m' \<Longrightarrow> bind m f = bind m' f"
  by simp

subsection \<open>Rounding\<close>

lemma round_even_upper: "of_int (round_even y) \<le> y + 1 / 2"
  unfolding round_even_def Let_def by (auto simp: not_less) linarith+

lemma round_even_nonneg: "0 \<le> y \<Longrightarrow> 0 \<le> round_even y"
  unfolding round_even_def Let_def by (auto simp: not_less)

lemma round_even_le: "y \<le> of_int k \<Longrightarrow> round_even y \<le> k"
proof -
  assume a: "y \<le> of_int k"
  have f: "\<lfloor>y\<rfloor> \<le> k" using a by (simp add: floor_le_iff) 
  show ?thesis
  proof (cases "y = of_int k")
    case True
    then show ?thesis by (simp add: round_even_def)
  next
    case False
    with a have "y < of_int k" by simp
    then have "\<lfloor>y\<rfloor> < k" by (simp add: floor_less_iff)
    then show ?thesis unfolding round_even_def Let_def by auto
  qed
qed

lemma two_powr_int: "2 powr (of_int e) = (2::real) powi e"
  by (simp add: powr_real_of_int')

lemma floor_log_bounds:
  assumes "0 < a"
  shows "2 powi \<lfloor>log 2 a\<rfloor> \<le> a" and "a < 2 powi (\<lfloor>log 2 a\<rfloor> + 1)"
proof -
  have "2 powr (of_int \<lfloor>log 2 a\<rfloor>) \<le> a"
    by (rule iffD1 [OF le_log_iff]) (use assms in simp_all)
  then show "2 powi \<lfloor>log 2 a\<rfloor> \<le> a" by (simp only: two_powr_int)
  have "log 2 a < of_int (\<lfloor>log 2 a\<rfloor> + 1)" by linarith
  then have "a < 2 powr (of_int (\<lfloor>log 2 a\<rfloor> + 1))"
    by (rule iffD1 [OF log_less_iff, rotated 2]) (use assms in simp_all)
  then show "a < 2 powi (\<lfloor>log 2 a\<rfloor> + 1)" by (simp only: two_powr_int)
qed

lemma expo_bounds:
  assumes "x \<noteq> 0"
  shows "\<bar>x\<bar> < 2 powi (expo x + 1)" and "2 powi expo x \<le> \<bar>x\<bar> \<or> expo x = - 1022"
proof -
  from assms have a: "0 < \<bar>x\<bar>" by simp
  note b = floor_log_bounds [OF a]
  have "(2::real) powi (\<lfloor>log 2 \<bar>x\<bar>\<rfloor> + 1) \<le> 2 powi (expo x + 1)"
    by (rule power_int_increasing) (simp_all add: expo_def)
  with b(2) show "\<bar>x\<bar> < 2 powi (expo x + 1)" by simp
  show "2 powi expo x \<le> \<bar>x\<bar> \<or> expo x = - 1022"
    using b(1) by (auto simp: expo_def max_def)
qed

lemma expo_eq:
  assumes "2 powi e \<le> \<bar>x\<bar>" "\<bar>x\<bar> < 2 powi (e + 1)" "- 1022 \<le> e"
  shows "expo x = e"
proof -
  have "(0::real) < 2 powi e" by simp
  with assms(1) have a: "0 < \<bar>x\<bar>" by linarith
  have "2 powr (of_int e) \<le> \<bar>x\<bar>" using assms(1) by (simp only: two_powr_int)
  then have 1: "of_int e \<le> log 2 \<bar>x\<bar>"
    by (rule iffD2 [OF le_log_iff, rotated 2]) (use a in simp_all)
  have "\<bar>x\<bar> < 2 powr (of_int (e + 1))" using assms(2) by (simp only: two_powr_int)
  then have 2: "log 2 \<bar>x\<bar> < of_int (e + 1)"
    by (rule iffD2 [OF log_less_iff, rotated 2]) (use a in simp_all)
  from 1 2 have "\<lfloor>log 2 \<bar>x\<bar>\<rfloor> = e" by (simp add: floor_eq_iff)
  with assms(3) show ?thesis by (simp add: expo_def)
qed

lemma double_eq:
  assumes "2 powi e \<le> x" "x < 2 powi (e + 1)" "- 1022 \<le> e"
  shows "double x = of_int (round_even (x / 2 powi (e - 52))) * 2 powi (e - 52)"
proof -
  have "(0::real) < 2 powi e" by simp
  with assms(1) have p: "0 < x" by linarith
  then have "expo x = e" using assms by (intro expo_eq) simp_all
  with p show ?thesis by (simp add: double_def)
qed

lemma double_zero: "double 0 = 0"
  by (simp add: double_def)

lemma double_values:
  "double (9 / 16) = 9 / 16"
  "double (9 / 8) = 9 / 8"
  "double (6 / 10) = 5404319552844595 / 9007199254740992"
  "double (1 / 10) = 3602879701896397 / 36028797018963968"
     apply (subst double_eq [of "- 1"], simp_all add: round_even_def power_int_minus)
    apply (subst double_eq [of 0], simp_all add: round_even_def power_int_minus)
   apply (subst double_eq [of "- 1"], simp_all add: round_even_def power_int_minus)
  apply (subst double_eq [of "- 4"], simp_all add: round_even_def power_int_minus)
  done

lemma double_nonneg: "0 \<le> x \<Longrightarrow> 0 \<le> double x"
  by (simp add: double_def round_even_nonneg sgn_if)

lemma double_upper:
  assumes "0 \<le> x"
  shows "double x \<le> x + max (x / 2 ^ 53) (2 powi (- 1075))"
proof (cases "x = 0")
  case True
  then show ?thesis by (simp add: double_def)
next
  case False
  with assms have p: "0 < x" by simp
  let ?q = "(2::real) powi (expo x - 52)"
  have q: "0 < ?q" by simp
  have "of_int (round_even (x / ?q)) \<le> x / ?q + 1 / 2" by (rule round_even_upper)
  then have "of_int (round_even (x / ?q)) * ?q \<le> (x / ?q + 1 / 2) * ?q"
    using q by (simp only: mult_le_cancel_right_pos)
  also have "\<dots> = x + ?q / 2" using q by (simp add: field_simps)
  finally have d: "double x \<le> x + ?q / 2" using p by (simp add: double_def)
  have s: "?q = 2 powi expo x / 2 ^ 52"
    by (simp add: power_int_diff)
  from expo_bounds(2) [OF False] p have "2 powi expo x \<le> x \<or> expo x = - 1022" by simp
  then have "?q / 2 \<le> max (x / 2 ^ 53) (2 powi (- 1075))"
  proof
    assume "2 powi expo x \<le> x"
    then have "?q / 2 \<le> x / 2 ^ 53" unfolding s by (simp add: field_simps)
    then show ?thesis by simp
  next
    assume "expo x = - 1022"
    then have "?q / 2 = 2 powi (- 1075)" by (simp add: power_int_minus field_simps)
    then show ?thesis by simp
  qed
  with d show ?thesis by linarith
qed

lemma tiny: "(2::real) powi (- 1075) < 1 / 2 ^ 53"
  by (simp add: power_int_minus field_simps)

lemma double_below_one:
  assumes "0 \<le> x" "x \<le> 1 - 1 / 2 ^ 53"
  shows "double x \<le> 1 - 1 / 2 ^ 53"
proof (cases "x < 1 / 2")
  case True
  from double_upper [OF assms(1)] have "double x \<le> x + max (x / 2 ^ 53) (2 powi (- 1075))" .
  moreover have "x / 2 ^ 53 < 1 / 4" using True assms(1) by (simp add: field_simps)
  moreover have "(2::real) powi (- 1075) < 1 / 4" using tiny by simp
  ultimately have "double x < 3 / 4" using True by (simp add: max_def split: if_splits)
  then show ?thesis by simp
next
  case False
  then have lo: "2 powi (- 1) \<le> x" by (simp add: power_int_minus)
  have hi: "x < 2 powi (- 1 + 1)" using assms(2) by simp
  from double_eq [OF lo hi]
  have e: "double x = of_int (round_even (x * 2 ^ 53)) / 2 ^ 53"
    by (simp add: power_int_minus field_simps)
  have "x * 2 ^ 53 \<le> of_int (2 ^ 53 - 1)" using assms(2) by (simp add: field_simps)
  then have "round_even (x * 2 ^ 53) \<le> 2 ^ 53 - 1" by (rule round_even_le)
  then have "(of_int (round_even (x * 2 ^ 53)) :: real) \<le> of_int (2 ^ 53 - 1)"
    by (simp only: of_int_le_iff)
  then show ?thesis unfolding e by (simp add: field_simps)
qed

lemma double_product_below:
  assumes "0 \<le> p" "p \<le> 1 - 1 / 2 ^ 53" "0 < n"
  shows "0 \<le> double (p * real n)" and "double (p * real n) < real n"
proof -
  have n: "1 \<le> real n" using assms(3) by simp
  have x0: "0 \<le> p * real n" using assms(1) by simp
  then show "0 \<le> double (p * real n)" by (rule double_nonneg)
  have x1: "p * real n \<le> (1 - 1 / 2 ^ 53) * real n"
    by (rule mult_right_mono [OF assms(2)]) simp
  from double_upper [OF x0]
  have d: "double (p * real n) \<le> p * real n + max (p * real n / 2 ^ 53) (2 powi (- 1075))" .
  have a: "p * real n + p * real n / 2 ^ 53 < real n"
  proof -
    have "p * real n + p * real n / 2 ^ 53 = p * real n * (1 + 1 / 2 ^ 53)"
      by (simp add: field_simps)
    also have "\<dots> \<le> (1 - 1 / 2 ^ 53) * real n * (1 + 1 / 2 ^ 53)"
      by (rule mult_right_mono [OF x1]) simp
    also have "\<dots> = real n * (1 - 1 / 2 ^ 106)" by (simp add: field_simps)
    also have "\<dots> < real n" using n by (simp add: field_simps)
    finally show ?thesis .
  qed
  have b: "p * real n + 2 powi (- 1075) < real n"
  proof -
    have "real n / 2 ^ 53 \<ge> 1 / 2 ^ 53" using n by (simp add: field_simps)
    with tiny have "2 powi (- 1075) < real n / 2 ^ 53" by linarith
    moreover have "p * real n \<le> real n - real n / 2 ^ 53" using x1 by (simp add: field_simps)
    ultimately show ?thesis by linarith
  qed
  have "p * real n + max (p * real n / 2 ^ 53) (2 powi (- 1075)) < real n"
  proof (cases "p * real n / 2 ^ 53 \<le> 2 powi (- 1075)")
    case True
    then have "max (p * real n / 2 ^ 53) (2 powi (- 1075)) = 2 powi (- 1075)"
      by (rule max_absorb2)
    with b show ?thesis by (simp only:)
  next
    case False
    then have "max (p * real n / 2 ^ 53) (2 powi (- 1075)) = p * real n / 2 ^ 53"
      by (simp only: max_def if_False)
    with a show ?thesis by (simp only:)
  qed
  with d show "double (p * real n) < real n" by (rule le_less_trans)
qed

lemmas eval =
  BasicLanguage_init_def choose_lst_def random_def randrange_def choose_at_def
  choose_index_def py_int_def getitem_def bind_simps str_simps RESTRICTIONS_def
  transliterate_def sublist_Cons_right get_morpheme_def get_word_def gen_word_def
  gen_name_def gen_name_candidate_def dd_touch_def dd_get_def list_append_def set_add_def
  py_in_def dict_values_def check_unique_def ortho_joiner_def Orthography_get_def
  Orthography_getitem_def Orthography_init_def update_opt_def dict_update_def
  module_init_def ORTHO_DEFAULT_items_def CON_ORTHO_def VOW_ORTHO_def
  float_pow_def len_def double_zero double_values
  lang_pa_def lang_pta_def lang_A_def ortho_of_def two_names_rng_def Let_def power_divide

lemmas eval_cong = bind_weak_cong let_weak_cong prod.case_cong_weak option.case_cong_weak

lemma bind_Returns_iff: "bind m f = Returns y \<longleftrightarrow> (\<exists>x. m = Returns x \<and> f x = Returns y)"
  by (cases m) (simp_all add: bind_def)

lemma bind_Raises_iff:
  "bind m f = Raises e \<longleftrightarrow> m = Raises e \<or> (\<exists>x. m = Returns x \<and> f x = Raises e)"
  by (cases m) (simp_all add: bind_def)

lemma py_in_Str_List: "\<not> py_in (Str s) (map List vs)"
  by (auto simp: py_in_def)


subsection \<open>The weighted chooser\<close>

lemma random_value: "\<exists>m < 2 ^ 53. fst (random g) = real m / 2 ^ 53"
  by (rule exI [of _ "shd g mod 2 ^ 53"]) (simp add: random_def)

lemma float_pow_unit:
  assumes "m < 2 ^ 53" "u = real m / 2 ^ 53" "1 \<le> y"
  shows "\<exists>p. float_pow u y = Returns p \<and> 0 \<le> p \<and> p \<le> 1 - 1 / 2 ^ 53"
proof (cases "m = 0")
  case True
  with assms show ?thesis by (simp add: float_pow_def)
next
  case False
  with assms(2) have u0: "0 < u" by simp
  from assms(1) have "m \<le> 2 ^ 53 - 1" by simp
  then have "real m \<le> real (2 ^ 53 - 1)" by (simp only: of_nat_le_iff)
  with assms(2) have u1: "u \<le> 1 - 1 / 2 ^ 53" by (simp add: field_simps)
  have "u powr y \<le> u powr 1"
    by (rule powr_mono') (use assms(3) u0 u1 in simp_all)
  with u0 u1 have x1: "u powr y \<le> 1 - 1 / 2 ^ 53" by simp
  have x0: "0 \<le> u powr y" by simp
  from double_below_one [OF x0 x1] double_nonneg [OF x0] assms(3) u0
  show ?thesis by (simp add: float_pow_def Let_def)
qed

lemma choose_index_unit:
  assumes "0 \<le> p" "p \<le> 1 - 1 / 2 ^ 53" "float_pow u y = Returns p" "lst \<noteq> []"
  shows "choose_index (len lst) y u = Returns (py_int (double (p * real (len lst))))"
    and "0 \<le> py_int (double (p * real (len lst)))"
    and "py_int (double (p * real (len lst))) < int (length lst)"
proof -
  from assms(4) have n: "0 < len lst" by (simp add: len_def)
  note b = double_product_below [OF assms(1,2) n]
  have "real (len lst) \<le> 2 ^ 53" by (simp add: len_def)
  with b have "\<bar>double (p * real (len lst))\<bar> < 2 ^ 1024" by simp
  then show "choose_index (len lst) y u = Returns (py_int (double (p * real (len lst))))"
    using assms(3) by (simp add: choose_index_def bind_def Let_def)
  from b(1) show "0 \<le> py_int (double (p * real (len lst)))" by (simp add: py_int_def)
  from b(2) have "double (p * real (len lst)) < of_int (int (len lst))" by simp
  then have "\<lfloor>double (p * real (len lst))\<rfloor> < int (len lst)" by (simp only: floor_less_iff)
  with b(1) show "py_int (double (p * real (len lst))) < int (length lst)"
    by (simp add: py_int_def len_def)
qed

lemma choose_at_empty:
  assumes "float_pow u y = Returns p"
  shows "choose_at [] y u = Raises IndexError"
  using assms
  by (simp add: choose_at_def choose_index_def len_def bind_def double_zero py_int_def
      getitem_def)




subsection \<open>The registries of morphemes and words\<close>

text \<open>
  C2. The claim: no morpheme is stored under two pools. On a language whose sets are
  \<open>C = 'p'\<close> and \<open>V = 'a'\<close> with the pattern \<open>'CVC'\<close>, \<open>get_morpheme('of')\<close> followed by
  \<open>get_morpheme('the')\<close> (the first two calls of every \<open>gen_name\<close>) stores \<open>'pap'\<close>
  under both pools: by \<open>py_in_Str_List\<close> the membership test never finds a string among
  the lists of \<open>self.morphemes.values()\<close>.
\<close>

theorem morpheme_stored_in_two_pools:
  "bind (get_morpheme module_init (Suc (Suc 0)) (lang_pa None 1 1) (Some (str ''of'')) (sconst 0))
     (\<lambda>(m1, L1, g1).
        bind (get_morpheme module_init (Suc (Suc 0)) L1 (Some (str ''the'')) g1)
          (\<lambda>(m2, L2, g2). Returns (m1, m2, morphemes L2)))
   = Returns (str ''pap'', str ''pap'',
        [(Some (str ''of''), [str ''pap'']), (Some (str ''the''), [str ''pap''])])"
  by (simp add: eval cong: eval_cong)

text \<open>
  C3. The claim: no two stored words are identical. On the same language
  \<open>get_word('a')\<close> followed by \<open>get_word('b')\<close> stores the word \<open>'pap'\<close> in both pools:
  the test against \<open>self.words.values()\<close> compares a string with lists as well.
\<close>

theorem word_stored_twice:
  "bind (get_word module_init (Suc (Suc (Suc (Suc 0)))) (lang_pa None 1 1) (Some (str ''a'')) (sconst 0))
     (\<lambda>(w1, L1, g1).
        bind (get_word module_init (Suc (Suc (Suc (Suc 0)))) L1 (Some (str ''b'')) g1)
          (\<lambda>(w2, L2, g2). Returns (w1, w2, words L2)))
   = Returns (str ''pap'', str ''pap'',
        [(Some (str ''a''), [str ''pap'']), (Some (str ''b''), [str ''pap''])])"
  by (simp add: eval cong: eval_cong)

subsection \<open>The number of morphemes of a word\<close>

text \<open>
  C5. The claim: a word has between \<open>min_syll\<close> and \<open>max_syll\<close> morphemes. With
  \<open>min_syll = max_syll = 2\<close> the comprehension of \<open>gen_word\<close> runs over \<open>range(2, 3)\<close>
  and the word is the single morpheme \<open>'pap'\<close>.
\<close>

theorem gen_word_below_min_syll:
  "min_syll (lang_pa None 2 2) = 2 \<and> max_syll (lang_pa None 2 2) = 2
   \<and> get_morphemes module_init (Suc (Suc 0))
        (nat (max_syll (lang_pa None 2 2) + 1 - min_syll (lang_pa None 2 2)))
        (lang_pa None 2 2) None (sconst 0)
      = Returns ([str ''pap''], (lang_pa None 2 2)\<lparr>morphemes := [(None, [str ''pap''])]\<rparr>, sconst 0)
   \<and> gen_word module_init (Suc (Suc 0)) (lang_pa None 2 2) None (sconst 0)
      = Returns (str ''pap'', (lang_pa None 2 2)\<lparr>morphemes := [(None, [str ''pap''])]\<rparr>, sconst 0)"
  by (simp add: eval cong: eval_cong)

subsection \<open>The shared orthography table\<close>

text \<open>
  C10. \<open>Orthography.ortho\<close> and \<open>ORTHO_DEFAULT\<close> are one object: each construction
  updates the default table in place, and after a second construction a lookup through
  the first instance and a lookup through the second give the same result, read from
  the table merged with both pairs of overlays.
\<close>

theorem Orthography_shares_table:
  assumes "Orthography_ortho G = ORTHO_DEFAULT G"
    and "Orthography_init c1 v1 j1 G = (o1, G1)"
    and "Orthography_init c2 v2 j2 G1 = (o2, G2)"
  shows "heap G1 (ORTHO_DEFAULT G1) = update_opt v1 (update_opt c1 (heap G (ORTHO_DEFAULT G)))
       \<and> heap G2 (ORTHO_DEFAULT G2) = update_opt v2 (update_opt c2 (heap G1 (ORTHO_DEFAULT G1)))
       \<and> Orthography_getitem G2 o1 key = Orthography_getitem G2 o2 key
       \<and> Orthography_getitem G2 o1 key =
           (case map_of (update_opt v2 (update_opt c2 (update_opt v1 (update_opt c1
                   (heap G (ORTHO_DEFAULT G)))))) key of
              None \<Rightarrow> Raises KeyError | Some v \<Rightarrow> Returns v)"
  using assms by (auto simp: Orthography_init_def Orthography_getitem_def Let_def)

theorem Orthography_shares_table_witness:
  "Orthography_ortho module_init = ORTHO_DEFAULT module_init
   \<and> Orthography_getitem
        (snd (Orthography_init (Some (CON_ORTHO ! 1)) (Some (VOW_ORTHO ! 1)) (str '' '') module_init))
        (fst (Orthography_init (Some (CON_ORTHO ! 1)) (Some (VOW_ORTHO ! 1)) (str '' '') module_init))
        [643] = Returns [353]
   \<and> Orthography_getitem
        (snd (Orthography_init (Some (CON_ORTHO ! 2)) (Some (VOW_ORTHO ! 2)) (str ''-'')
           (snd (Orthography_init (Some (CON_ORTHO ! 1)) (Some (VOW_ORTHO ! 1)) (str '' '') module_init))))
        (fst (Orthography_init (Some (CON_ORTHO ! 1)) (Some (VOW_ORTHO ! 1)) (str '' '') module_init))
        [643] = Returns (str ''sch'')
   \<and> Orthography_getitem
        (snd (Orthography_init (Some (CON_ORTHO ! 2)) (Some (VOW_ORTHO ! 2)) (str ''-'')
           (snd (Orthography_init (Some (CON_ORTHO ! 1)) (Some (VOW_ORTHO ! 1)) (str '' '') module_init))))
        (fst (Orthography_init (Some (CON_ORTHO ! 2)) (Some (VOW_ORTHO ! 2)) (str ''-'')
           (snd (Orthography_init (Some (CON_ORTHO ! 1)) (Some (VOW_ORTHO ! 1)) (str '' '') module_init))))
        [643] = Returns (str ''sch'')"
  using Orthography_shares_table [of module_init "Some (CON_ORTHO ! 1)" "Some (VOW_ORTHO ! 1)"
      "str '' ''" _ _ "Some (CON_ORTHO ! 2)" "Some (VOW_ORTHO ! 2)" "str ''-''" _ _ "[643]",
      OF _ surjective_pairing surjective_pairing]
  by (simp add: eval)

subsection \<open>Transliteration\<close>

lemma concat_map_singletons: "(\<forall>x \<in> set v. f x = [x]) \<Longrightarrow> concat (map f v) = v"
  by (induction v) auto

lemma lookup_stable:
  assumes "display_stable d" "map_of d [c] = Some v"
  shows "concat (map (\<lambda>c'. case map_of d [c'] of None \<Rightarrow> [c'] | Some w \<Rightarrow> w) v) = v"
proof -
  from assms(2) have "([c], v) \<in> set d" by (rule map_of_SomeD)
  with assms(1) have "\<forall>c' \<in> set v. map_of d [c'] = None \<or> map_of d [c'] = Some [c']"
    by (auto simp: display_stable_def list_all_iff)
  then have "\<forall>c' \<in> set v. (case map_of d [c'] of None \<Rightarrow> [c'] | Some w \<Rightarrow> w) = [c']"
    by (auto split: option.splits)
  then show ?thesis by (rule concat_map_singletons)
qed

lemma transliterate_twice:
  assumes "display_stable d"
  shows "concat (map (\<lambda>c. case map_of d [c] of None \<Rightarrow> [c] | Some w \<Rightarrow> w)
           (concat (map (\<lambda>c. case map_of d [c] of None \<Rightarrow> [c] | Some w \<Rightarrow> w) s)))
         = concat (map (\<lambda>c. case map_of d [c] of None \<Rightarrow> [c] | Some w \<Rightarrow> w) s)"
proof (induction s)
  case Nil
  show ?case by simp
next
  case (Cons c s)
  show ?case
  proof (cases "map_of d [c]")
    case None
    then show ?thesis using Cons by simp
  next
    case (Some v)
    then show ?thesis using Cons lookup_stable [OF assms Some] by simp
  qed
qed

lemma Orthography_get_eq:
  "Orthography_get G ort key dflt =
     (case map_of (heap G (Orthography_ortho G)) key of None \<Rightarrow> dflt | Some w \<Rightarrow> w)"
  by (simp add: Orthography_get_def Orthography_getitem_def split: option.splits)

lemma merged_tables_stable:
  "display_stable (heap (snd (ortho_of 1 0)) (Orthography_ortho (snd (ortho_of 1 0))))"
  "display_stable (heap (snd (ortho_of 1 1)) (Orthography_ortho (snd (ortho_of 1 1))))"
  "display_stable (heap (snd (ortho_of 1 2)) (Orthography_ortho (snd (ortho_of 1 2))))"
  "display_stable (heap (snd (ortho_of 1 3)) (Orthography_ortho (snd (ortho_of 1 3))))"
  "display_stable (heap (snd (ortho_of 1 4)) (Orthography_ortho (snd (ortho_of 1 4))))"
  "display_stable (heap (snd (ortho_of 2 0)) (Orthography_ortho (snd (ortho_of 2 0))))"
  "display_stable (heap (snd (ortho_of 2 1)) (Orthography_ortho (snd (ortho_of 2 1))))"
  "display_stable (heap (snd (ortho_of 2 2)) (Orthography_ortho (snd (ortho_of 2 2))))"
  "display_stable (heap (snd (ortho_of 2 3)) (Orthography_ortho (snd (ortho_of 2 3))))"
  "display_stable (heap (snd (ortho_of 2 4)) (Orthography_ortho (snd (ortho_of 2 4))))"
  by (simp_all add: eval display_stable_def)

lemma less_5_cases: "v < 5 \<Longrightarrow> v = 0 \<or> v = 1 \<or> v = 2 \<or> v = 3 \<or> v = (4::nat)"
  by arith

text \<open>
  C8, as amended. Transliterating twice gives the same string as transliterating once
  when no orthography is configured or when the table is \<open>display_stable\<close>; the tables
  merged from the default table with consonant style 1 or 2 and any vowel style are
  \<open>display_stable\<close>.
\<close>

theorem transliterate_idempotent:
  "(ortho L = None \<or> display_stable (heap G (Orthography_ortho G))
      \<longrightarrow> transliterate G L (transliterate G L s) = transliterate G L s)
   \<and> (c \<in> {1, 2} \<and> v < 5
      \<longrightarrow> display_stable (heap (snd (ortho_of c v)) (Orthography_ortho (snd (ortho_of c v)))))"
proof (intro conjI impI)
  assume a: "ortho L = None \<or> display_stable (heap G (Orthography_ortho G))"
  show "transliterate G L (transliterate G L s) = transliterate G L s"
  proof (cases "ortho L")
    case None
    then show ?thesis by (simp add: transliterate_def)
  next
    case (Some ort)
    with a have "display_stable (heap G (Orthography_ortho G))" by simp
    from transliterate_twice [OF this] show ?thesis
      using Some by (simp add: transliterate_def Orthography_get_eq)
  qed
next
  assume "c \<in> {1, 2} \<and> v < 5"
  then have "c = 1 \<or> c = 2" and "v = 0 \<or> v = 1 \<or> v = 2 \<or> v = 3 \<or> v = 4"
    using less_5_cases [of v] by auto
  then show "display_stable (heap (snd (ortho_of c v)) (Orthography_ortho (snd (ortho_of c v))))"
    using merged_tables_stable by (elim disjE) (simp_all only:)
qed

theorem transliterate_idempotent_witness:
  "display_stable (heap (snd (ortho_of 2 4)) (Orthography_ortho (snd (ortho_of 2 4))))
   \<and> transliterate (snd (ortho_of 2 4)) (lang_A (Some (fst (ortho_of 2 4)))) [643, 65, 106] = str ''schaaj''
   \<and> transliterate (snd (ortho_of 2 4)) (lang_A (Some (fst (ortho_of 2 4)))) (str ''schaaj'') = str ''schaaj''"
proof -
  have s: "display_stable (heap (snd (ortho_of 2 4)) (Orthography_ortho (snd (ortho_of 2 4))))"
    using transliterate_idempotent [of _ _ _ 2 4] by simp
  have t: "transliterate (snd (ortho_of 2 4)) (lang_A (Some (fst (ortho_of 2 4)))) [643, 65, 106] = str ''schaaj''"
    by (simp add: eval)
  from s transliterate_idempotent [of "lang_A (Some (fst (ortho_of 2 4)))" "snd (ortho_of 2 4)" "[643, 65, 106]"] t
  show ?thesis by simp
qed

text \<open>
  The claim as stated fails for the consonant styles 4, 3 and 0: the esh becomes \<open>'x'\<close>
  and then \<open>'kh'\<close>; the ezh and the letter of code 676 become \<open>'j'\<close> and then \<open>'y'\<close>.
\<close>

theorem transliterate_twice_differs:
  "transliterate (snd (ortho_of 4 0)) (lang_A (Some (fst (ortho_of 4 0)))) [643] = str ''x''
   \<and> transliterate (snd (ortho_of 4 0)) (lang_A (Some (fst (ortho_of 4 0)))) (str ''x'') = str ''kh''
   \<and> transliterate (snd (ortho_of 3 0)) (lang_A (Some (fst (ortho_of 3 0)))) [658] = str ''j''
   \<and> transliterate (snd (ortho_of 3 0)) (lang_A (Some (fst (ortho_of 3 0)))) (str ''j'') = str ''y''
   \<and> transliterate (snd (ortho_of 0 0)) (lang_A (Some (fst (ortho_of 0 0)))) [676] = str ''j''
   \<and> transliterate (snd (ortho_of 0 0)) (lang_A (Some (fst (ortho_of 0 0)))) (str ''j'') = str ''y''"
  by (simp add: eval)

subsection \<open>Restrictions and the generated syllable\<close>

lemma gen_syllable_raw:
  "gen_syllable G n L g = Returns (s, g') \<Longrightarrow>
     \<exists>raw. s = transliterate G L raw \<and> \<not> list_ex (\<lambda>r. re_search r raw) (restricts L)"
proof (induction n arbitrary: g)
  case 0
  then show ?case by simp
next
  case (Suc n)
  then show ?case by (auto simp: bind_Returns_iff split: if_splits)
qed

text \<open>
  C7, as amended. A returned syllable is the transliteration of a raw phone sequence that
  matches no restriction pattern; without an orthography the returned syllable itself
  matches none.
\<close>

theorem gen_syllable_raw_unrestricted:
  assumes "gen_syllable G n L g = Returns (s, g')"
  shows "(\<exists>raw. s = transliterate G L raw \<and> (\<forall>r \<in> set (restricts L). \<not> re_search r raw))
       \<and> (ortho L = None \<longrightarrow> (\<forall>r \<in> set (restricts L). \<not> re_search r s))"
proof -
  from gen_syllable_raw [OF assms] obtain raw where
    r: "s = transliterate G L raw" "\<forall>r \<in> set (restricts L). \<not> re_search r raw"
    by (auto simp: list_ex_iff)
  moreover have "ortho L = None \<Longrightarrow> s = raw" using r(1) by (simp add: transliterate_def)
  ultimately show ?thesis by auto
qed

theorem gen_syllable_raw_unrestricted_witness:
  "gen_syllable module_init (Suc 0) (lang_pa None 1 1) (sconst 0) = Returns (str ''pap'', sconst 0)
   \<and> ortho (lang_pa None 1 1) = None
   \<and> \<not> list_ex (\<lambda>r. re_search r (str ''pap'')) (restricts (lang_pa None 1 1))"
proof -
  have h: "gen_syllable module_init (Suc 0) (lang_pa None 1 1) (sconst 0) = Returns (str ''pap'', sconst 0)"
    by (simp add: eval cong: eval_cong)
  have o: "ortho (lang_pa None 1 1) = None" by (simp add: eval)
  from gen_syllable_raw_unrestricted [OF h] h o show ?thesis
    unfolding list_ex_iff by blast
qed

text \<open>
  The claim as stated fails on the returned syllable: with the vowel set \<open>'A'\<close>, the
  pattern \<open>'V'\<close> and the vowel style 4, which writes \<open>'A'\<close> as \<open>'aa'\<close>, the generator
  returns \<open>'aa'\<close>, which matches the pattern \<open>r'(.)\1'\<close> of the restrictions.
\<close>

theorem gen_syllable_matches_restriction:
  "gen_syllable (snd (ortho_of 0 4)) (Suc 0) (lang_A (Some (fst (ortho_of 0 4)))) (sconst 0)
     = Returns (str ''aa'', sconst 0)
   \<and> Repeated \<in> set (restricts (lang_A (Some (fst (ortho_of 0 4)))))
   \<and> re_search Repeated (str ''aa'')"
  by (simp add: eval cong: eval_cong)


subsection \<open>Configuration errors\<close>

lemma choose_lst_empty: "choose_lst ([]::'a list) 2 g = Raises IndexError"
proof -
  obtain u g1 where r: "random g = (u, g1)" by (cases "random g")
  with random_value [of g] obtain m where m: "m < 2 ^ 53" "u = real m / 2 ^ 53" by auto
  from float_pow_unit [OF m, of 2] obtain p where "float_pow u 2 = Returns p" by auto
  then have "choose_at ([]::'a list) 2 u = Raises IndexError" by (rule choose_at_empty)
  then show ?thesis using r by (simp add: choose_lst_def bind_def)
qed

lemma choose_lst_nonempty:
  assumes "cands \<noteq> []"
  shows "\<exists>x. choose_lst cands 2 g = Returns (x, snd (random g))"
proof -
  obtain u g1 where r: "random g = (u, g1)" by (cases "random g")
  with random_value [of g] obtain m where m: "m < 2 ^ 53" "u = real m / 2 ^ 53" by auto
  from float_pow_unit [OF m, of 2] obtain p where
    p: "float_pow u 2 = Returns p" "0 \<le> p" "p \<le> 1 - 1 / 2 ^ 53"
    by auto
  note c = choose_index_unit [OF p(2,3,1) assms]
  have "choose_at cands 2 u = Returns (cands ! nat (py_int (double (p * real (len cands)))))"
    using c by (simp add: choose_at_def bind_def getitem_def)
  then show ?thesis using r by (simp add: choose_lst_def bind_def)
qed

lemma gen_phones_config_error:
  "config_error (phonemes L) pat = Some e \<Longrightarrow> gen_phones L pat phones g = Raises e"
proof (induction pat arbitrary: phones g)
  case Nil
  then show ?case by simp
next
  case (Cons spec rest)
  show ?case
  proof (cases "spec = 63")
    case True
    with Cons show ?thesis by (simp split: prod.splits)
  next
    case False
    show ?thesis
    proof (cases "map_of (phonemes L) [spec]")
      case None
      with False Cons.prems show ?thesis by simp
    next
      case (Some cands)
      show ?thesis
      proof (cases "cands = []")
        case True
        with False Some Cons.prems show ?thesis by (simp add: choose_lst_empty)
      next
        case ne: False
        from choose_lst_nonempty [OF ne, of g] obtain x where
          "choose_lst cands 2 g = Returns (x, snd (random g))" ..
        with False Some ne Cons show ?thesis by simp
      qed
    qed
  qed
qed

lemma gen_phones_valid:
  "config_error (phonemes L) pat = None \<Longrightarrow> \<exists>r. gen_phones L pat phones g = Returns r"
proof (induction pat arbitrary: phones g)
  case Nil
  then show ?case by simp
next
  case (Cons spec rest)
  show ?case
  proof (cases "spec = 63")
    case True
    with Cons show ?thesis by (simp split: prod.splits)
  next
    case False
    with Cons.prems obtain cands where
      c: "map_of (phonemes L) [spec] = Some cands" "cands \<noteq> []"
        "config_error (phonemes L) rest = None"
      by (auto split: option.splits if_splits)
    from choose_lst_nonempty [OF c(2), of g] obtain x where
      "choose_lst cands 2 g = Returns (x, snd (random g))" ..
    with False c Cons.IH show ?thesis by simp
  qed
qed

lemma gen_syllable_config_error:
  "config_error (phonemes L) (syll L) = Some e \<Longrightarrow> gen_syllable G (Suc n) L g = Raises e"
  by (simp add: gen_phones_config_error bind_def)

lemma gen_syllable_valid:
  "config_error (phonemes L) (syll L) = None \<Longrightarrow> gen_syllable G n L g \<noteq> Raises e"
proof (induction n arbitrary: g)
  case 0
  show ?case by simp
next
  case (Suc n)
  from gen_phones_valid [OF Suc.prems, of "[]" g] obtain r where
    "gen_phones L (syll L) [] g = Returns r" ..
  with Suc show ?case by (cases r) (simp add: bind_def)
qed

lemma gen_word_empty_range:
  "max_syll L < min_syll L \<Longrightarrow> gen_word G n L pool g = Returns ([], L, g)"
  by (simp add: gen_word_def bind_def)

text \<open>
  C4, as amended. Construction validates nothing. On the constructed language the
  first attempt of the syllable generator raises the error of the first offending token
  of the pattern (\<open>KeyError\<close> for a role absent from the phoneme mapping, \<open>IndexError\<close>
  for a role without candidates); without such a token the syllable generator never
  raises; with \<open>max_syll < min_syll\<close> nothing is raised and \<open>gen_word\<close> returns the
  empty word.
\<close>

theorem errors_surface_in_generation:
  "(config_error ph sy = Some e
      \<longrightarrow> gen_syllable G (Suc n) (BasicLanguage_init ph sy ort mn mx rs) g = Raises e)
   \<and> (config_error ph sy = None
      \<longrightarrow> (\<forall>e'. gen_syllable G n (BasicLanguage_init ph sy ort mn mx rs) g \<noteq> Raises e'))
   \<and> (mx < mn
      \<longrightarrow> gen_word G n (BasicLanguage_init ph sy ort mn mx rs) pool g
            = Returns ([], BasicLanguage_init ph sy ort mn mx rs, g))"
proof -
  have f: "phonemes (BasicLanguage_init ph sy ort mn mx rs) = ph"
    "syll (BasicLanguage_init ph sy ort mn mx rs) = sy"
    "min_syll (BasicLanguage_init ph sy ort mn mx rs) = mn"
    "max_syll (BasicLanguage_init ph sy ort mn mx rs) = mx"
    by (simp_all add: BasicLanguage_init_def)
  show ?thesis
    using gen_syllable_config_error [of "BasicLanguage_init ph sy ort mn mx rs" e G n g]
      gen_syllable_valid [of "BasicLanguage_init ph sy ort mn mx rs" G n g]
      gen_word_empty_range [of "BasicLanguage_init ph sy ort mn mx rs" G n pool g]
    by (simp only: f) blast
qed

theorem errors_surface_in_generation_witness:
  "config_error [(str ''C'', str ''p'')] (str ''CVC'') = Some KeyError
   \<and> gen_syllable module_init (Suc 0)
        (BasicLanguage_init [(str ''C'', str ''p'')] (str ''CVC'') None 2 1 RESTRICTIONS) (sconst 0)
      = Raises KeyError
   \<and> config_error [(str ''C'', str ''p''), (str ''V'', str ''a'')] (str ''CVC'') = None
   \<and> (\<forall>e'. gen_syllable module_init (Suc 0)
        (BasicLanguage_init [(str ''C'', str ''p''), (str ''V'', str ''a'')] (str ''CVC'') None 2 1
           RESTRICTIONS) (sconst 0) \<noteq> Raises e')
   \<and> (1::int) < 2
   \<and> gen_word module_init (Suc 0)
        (BasicLanguage_init [(str ''C'', str ''p'')] (str ''CVC'') None 2 1 RESTRICTIONS) None (sconst 0)
      = Returns ([], BasicLanguage_init [(str ''C'', str ''p'')] (str ''CVC'') None 2 1 RESTRICTIONS,
          sconst 0)"
proof -
  have a: "config_error [(str ''C'', str ''p'')] (str ''CVC'') = Some KeyError"
    by (simp add: str_simps)
  have b: "config_error [(str ''C'', str ''p''), (str ''V'', str ''a'')] (str ''CVC'') = None"
    by (simp add: str_simps)
  have c: "(1::int) < 2" by simp
  have 1: "gen_syllable module_init (Suc 0)
        (BasicLanguage_init [(str ''C'', str ''p'')] (str ''CVC'') None 2 1 RESTRICTIONS) (sconst 0)
      = Raises KeyError"
    using a errors_surface_in_generation [of "[(str ''C'', str ''p'')]" "str ''CVC''" KeyError
        module_init 0 None 2 1 RESTRICTIONS "sconst 0"]
    by blast
  have 2: "\<forall>e'. gen_syllable module_init (Suc 0)
        (BasicLanguage_init [(str ''C'', str ''p''), (str ''V'', str ''a'')] (str ''CVC'') None 2 1
           RESTRICTIONS) (sconst 0) \<noteq> Raises e'"
    using b errors_surface_in_generation [of "[(str ''C'', str ''p''), (str ''V'', str ''a'')]"
        "str ''CVC''" KeyError module_init "Suc 0" None 2 1 RESTRICTIONS "sconst 0"]
    by blast
  have 3: "gen_word module_init (Suc 0)
        (BasicLanguage_init [(str ''C'', str ''p'')] (str ''CVC'') None 2 1 RESTRICTIONS) None (sconst 0)
      = Returns ([], BasicLanguage_init [(str ''C'', str ''p'')] (str ''CVC'') None 2 1 RESTRICTIONS,
          sconst 0)"
    using c errors_surface_in_generation [of "[(str ''C'', str ''p'')]" "str ''CVC''" KeyError
        module_init "Suc 0" None 2 1 RESTRICTIONS "sconst 0" None]
    by blast
  from a 1 b 2 c 3 show ?thesis by blast
qed

text \<open>
  The claim as stated fails: the three invalid configurations are constructed, and the
  errors are raised by the generation, or not at all.
\<close>

theorem errors_not_reported_at_construction:
  "gen_syllable module_init (Suc 0)
     (BasicLanguage_init [(str ''C'', str ''p'')] (str ''CVC'') None 1 1 RESTRICTIONS) (sconst 0)
     = Raises KeyError
   \<and> gen_syllable module_init (Suc 0)
     (BasicLanguage_init [(str ''C'', str ''p''), (str ''V'', [])] (str ''CVC'') None 1 1 RESTRICTIONS)
     (sconst 0) = Raises IndexError
   \<and> gen_word module_init (Suc 0)
     (BasicLanguage_init [(str ''C'', str ''p''), (str ''V'', str ''a'')] (str ''CVC'') None 2 1
        RESTRICTIONS) None (sconst 0)
     = Returns ([],
         BasicLanguage_init [(str ''C'', str ''p''), (str ''V'', str ''a'')] (str ''CVC'') None 2 1
           RESTRICTIONS, sconst 0)"
  by (simp add: eval cong: eval_cong)

subsection \<open>Names: length and uniqueness\<close>

lemma bind_ReturnsE:
  assumes "bind m f = Returns y"
  obtains x where "m = Returns x" "f x = Returns y"
  using assms by (auto simp: bind_Returns_iff)

lemma get_morpheme_while_frame:
  "get_morpheme_while G n L pool ml ex g = Returns (m, L', g') \<Longrightarrow>
     names L' = names L \<and> min_char L' = min_char L \<and> max_char L' = max_char L"
proof (induction n arbitrary: g)
  case 0
  then show ?case by simp
next
  case (Suc n)
  from Suc.prems obtain k g1 where
    r: "(if k < length ml then Returns (ml ! k, L, g1)
         else bind (gen_syllable G n L g1) (\<lambda>(new_morph, g2).
           if \<not> py_in (Str new_morph) (map List (dict_values (morphemes L))) then
             Returns (new_morph, L\<lparr>morphemes := list_append pool new_morph (morphemes L)\<rparr>, g2)
           else get_morpheme_while G n L pool ml ex g2)) = Returns (m, L', g')"
    by (simp only: get_morpheme_while.simps) (erule bind_ReturnsE, auto)
  show ?case
  proof (cases "k < length ml")
    case True
    with r show ?thesis by simp
  next
    case False
    with r obtain nm g2 where
      "(if \<not> py_in (Str nm) (map List (dict_values (morphemes L))) then
             Returns (nm, L\<lparr>morphemes := list_append pool nm (morphemes L)\<rparr>, g2)
           else get_morpheme_while G n L pool ml ex g2) = Returns (m, L', g')"
      by (simp only: if_False) (erule bind_ReturnsE, auto)
    then show ?thesis using Suc.IH [of g2] by (auto split: if_splits)
  qed
qed


lemma get_morpheme_frame:
  assumes "get_morpheme G n L pool g = Returns (m, L', g')"
  shows "names L' = names L \<and> min_char L' = min_char L \<and> max_char L' = max_char L"
proof -
  from assms have
    "get_morpheme_while G n (L\<lparr>morphemes := dd_touch [] pool (morphemes L)\<rparr>) pool
       (dd_get [] pool (dd_touch [] pool (morphemes L))) (if pool = None then 10 else 1) g
     = Returns (m, L', g')"
    by (simp add: get_morpheme_def Let_def)
  from get_morpheme_while_frame [OF this] show ?thesis by simp
qed

lemma get_morphemes_frame:
  "get_morphemes G n k L pool g = Returns (ms, L', g') \<Longrightarrow>
     names L' = names L \<and> min_char L' = min_char L \<and> max_char L' = max_char L"
proof (induction k arbitrary: L g ms)
  case 0
  then show ?case by simp
next
  case (Suc k)
  from Suc.prems obtain m L1 g1 where
    a: "get_morpheme G n L pool g = Returns (m, L1, g1)" and
    b: "bind (get_morphemes G n k L1 pool g1) (\<lambda>(ms, L2, g2). Returns (m # ms, L2, g2))
          = Returns (ms, L', g')"
    by (simp only: get_morphemes.simps) (erule bind_ReturnsE, auto)
  from b obtain ms1 where "get_morphemes G n k L1 pool g1 = Returns (ms1, L', g')"
    by (rule bind_ReturnsE) auto
  from Suc.IH [OF this] get_morpheme_frame [OF a] show ?case by simp
qed

lemma gen_word_frame:
  assumes "gen_word G n L pool g = Returns (w, L', g')"
  shows "names L' = names L \<and> min_char L' = min_char L \<and> max_char L' = max_char L"
proof -
  from assms obtain ms where
    "get_morphemes G n (nat (max_syll L + 1 - min_syll L)) L pool g = Returns (ms, L', g')"
    unfolding gen_word_def by (rule bind_ReturnsE) auto
  then show ?thesis by (rule get_morphemes_frame)
qed

lemma get_word_while_frame:
  "get_word_while G n L pool wl ex g = Returns (w, L', g') \<Longrightarrow>
     names L' = names L \<and> min_char L' = min_char L \<and> max_char L' = max_char L"
proof (induction n arbitrary: L g)
  case 0
  then show ?case by simp
next
  case (Suc n)
  from Suc.prems obtain k g1 where
    r: "(if k < length wl then Returns (wl ! k, L, g1)
         else bind (gen_word G n L pool g1) (\<lambda>(new_word, L1, g2).
           if \<not> py_in (Str new_word) (map List (dict_values (words L1))) then
             Returns (new_word, L1\<lparr>words := list_append pool new_word (words L1)\<rparr>, g2)
           else get_word_while G n L1 pool wl ex g2)) = Returns (w, L', g')"
    by (simp only: get_word_while.simps) (erule bind_ReturnsE, auto)
  show ?case
  proof (cases "k < length wl")
    case True
    with r show ?thesis by simp
  next
    case False
    with r obtain nw L1 g2 where
      a: "gen_word G n L pool g1 = Returns (nw, L1, g2)" and
      b: "(if \<not> py_in (Str nw) (map List (dict_values (words L1))) then
             Returns (nw, L1\<lparr>words := list_append pool nw (words L1)\<rparr>, g2)
           else get_word_while G n L1 pool wl ex g2) = Returns (w, L', g')"
      by (simp only: if_False) (erule bind_ReturnsE, auto)
    from b have "names L' = names L1 \<and> min_char L' = min_char L1 \<and> max_char L' = max_char L1"
      using Suc.IH [of L1 g2] by (auto split: if_splits)
    with gen_word_frame [OF a] show ?thesis by simp
  qed
qed

lemma get_word_frame:
  assumes "get_word G n L pool g = Returns (w, L', g')"
  shows "names L' = names L \<and> min_char L' = min_char L \<and> max_char L' = max_char L"
proof -
  from assms have
    "get_word_while G n (L\<lparr>words := dd_touch [] pool (words L)\<rparr>) pool
       (dd_get [] pool (dd_touch [] pool (words L))) (if pool = None then 3 else 2) g
     = Returns (w, L', g')"
    by (simp add: get_word_def Let_def)
  from get_word_while_frame [OF this] show ?thesis by simp
qed


lemma gen_name_candidate_frame:
  assumes "gen_name_candidate G cap n L pool gen def g = Returns (c, L', g')"
  shows "names L' = names L \<and> min_char L' = min_char L \<and> max_char L' = max_char L"
proof -
  obtain u1 g1 where r1: "random g = (u1, g1)" by (cases "random g")
  from assms r1 obtain c0 L1 g2 where
    a: "(if u1 < 1 / 2 then
             bind (get_word G n L pool g1) (\<lambda>(w, L1, g2). Returns (Some (cap w), L1, g2))
           else
             (case random g1 of (u2, g2) \<Rightarrow>
                bind (get_word G n L (if u2 < double (6 / 10) then pool else None) g2) (\<lambda>(w1, L1, g3).
                  case random g3 of (u3, g4) \<Rightarrow>
                    bind (get_word G n L1 (if u3 < double (6 / 10) then pool else None) g4) (\<lambda>(w2, L2, g5).
                      let n_part1 = cap w1; n_part2 = cap w2 in
                      if n_part1 = n_part2 then Returns (None, L2, g5)
                      else
                        (case random g5 of (u4, g6) \<Rightarrow>
                           bind (ortho_joiner L2) (\<lambda>j.
                             Returns
                               (Some (join j (if u4 < 1 / 2 then [n_part1, n_part2]
                                              else [n_part1, gen, n_part2])),
                                L2, g6))))))) = Returns (c0, L1, g2)" and
    b: "(case c0 of
               None \<Rightarrow> Returns (None, L1, g2)
             | Some name \<Rightarrow>
                 (case random g2 of (u5, g3) \<Rightarrow>
                    if u5 < double (1 / 10) then
                      bind (ortho_joiner L1) (\<lambda>j. Returns (Some (join j [def, name]), L1, g3))
                    else Returns (Some name, L1, g3))) = Returns (c, L', g')"
    unfolding gen_name_candidate_def by (simp only: prod.case) (erule bind_ReturnsE, auto)
  from b have e: "L' = L1"
    by (auto simp: bind_Returns_iff split: option.splits prod.splits if_splits)
  have "names L1 = names L \<and> min_char L1 = min_char L \<and> max_char L1 = max_char L"
  proof (cases "u1 < 1 / 2")
    case True
    with a obtain w where "get_word G n L pool g1 = Returns (w, L1, g2)"
      by (simp only: if_True) (erule bind_ReturnsE, auto)
    then show ?thesis by (rule get_word_frame)
  next
    case False
    obtain u2 h2 where r2: "random g1 = (u2, h2)" by (cases "random g1")
    from a False r2 obtain w1 M1 h3 where
      w1: "get_word G n L (if u2 < double (6 / 10) then pool else None) h2 = Returns (w1, M1, h3)" and
      a2: "(case random h3 of (u3, g4) \<Rightarrow>
                    bind (get_word G n M1 (if u3 < double (6 / 10) then pool else None) g4) (\<lambda>(w2, L2, g5).
                      let n_part1 = cap w1; n_part2 = cap w2 in
                      if n_part1 = n_part2 then Returns (None, L2, g5)
                      else
                        (case random g5 of (u4, g6) \<Rightarrow>
                           bind (ortho_joiner L2) (\<lambda>j.
                             Returns
                               (Some (join j (if u4 < 1 / 2 then [n_part1, n_part2]
                                              else [n_part1, gen, n_part2])),
                                L2, g6))))) = Returns (c0, L1, g2)"
      by (simp only: if_False prod.case) (erule bind_ReturnsE, auto)
    obtain u3 h4 where r3: "random h3 = (u3, h4)" by (cases "random h3")
    from a2 r3 obtain w2 M2 h5 where
      w2: "get_word G n M1 (if u3 < double (6 / 10) then pool else None) h4 = Returns (w2, M2, h5)" and
      a3: "(let n_part1 = cap w1; n_part2 = cap w2 in
                      if n_part1 = n_part2 then Returns (None, M2, h5)
                      else
                        (case random h5 of (u4, g6) \<Rightarrow>
                           bind (ortho_joiner M2) (\<lambda>j.
                             Returns
                               (Some (join j (if u4 < 1 / 2 then [n_part1, n_part2]
                                              else [n_part1, gen, n_part2])),
                                M2, g6)))) = Returns (c0, L1, g2)"
      by (simp only: prod.case) (erule bind_ReturnsE, auto)
    from a3 have "L1 = M2"
      by (auto simp: bind_Returns_iff Let_def split: prod.splits if_splits)
    with get_word_frame [OF w1] get_word_frame [OF w2] show ?thesis by simp
  qed
  with e show ?thesis by simp
qed


lemma check_unique_names: "names L1 = names L \<Longrightarrow> check_unique L1 name = check_unique L name"
  by (simp add: check_unique_def)

lemma gen_name_while_accepts:
  "gen_name_while G cap n L pool gen def g = Returns (name, L', g') \<Longrightarrow>
     min_char L \<le> length name \<and> length name \<le> max_char L * 2 \<and> check_unique L name
     \<and> names L' = set_add pool name (names L)
     \<and> min_char L' = min_char L \<and> max_char L' = max_char L"
proof (induction n arbitrary: L g)
  case 0
  then show ?case by simp
next
  case (Suc n)
  from Suc.prems obtain c L1 g1 where
    a: "gen_name_candidate G cap n L pool gen def g = Returns (c, L1, g1)" and
    b: "(case c of
         None \<Rightarrow> gen_name_while G cap n L1 pool gen def g1
       | Some name \<Rightarrow>
           if \<not> (min_char L1 \<le> length name \<and> length name \<le> max_char L1 * 2) then
             gen_name_while G cap n L1 pool gen def g1
           else if check_unique L1 name then
             Returns (name, L1\<lparr>names := set_add pool name (names L1)\<rparr>, g1)
           else gen_name_while G cap n L1 pool gen def g1) = Returns (name, L', g')"
    by (simp only: gen_name_while.simps) (erule bind_ReturnsE, auto)
  from gen_name_candidate_frame [OF a] have
    f: "names L1 = names L" "min_char L1 = min_char L" "max_char L1 = max_char L"
    by simp_all
  have "min_char L1 \<le> length name \<and> length name \<le> max_char L1 * 2 \<and> check_unique L1 name
     \<and> names L' = set_add pool name (names L1)
     \<and> min_char L' = min_char L1 \<and> max_char L' = max_char L1"
  proof (cases c)
    case None
    with b show ?thesis using Suc.IH [of L1 g1] by simp
  next
    case (Some nm)
    show ?thesis
    proof (cases "min_char L1 \<le> length nm \<and> length nm \<le> max_char L1 * 2 \<and> check_unique L1 nm")
      case True
      with b Some show ?thesis by auto
    next
      case False
      with b Some have "gen_name_while G cap n L1 pool gen def g1 = Returns (name, L', g')"
        by (auto split: if_splits)
      then show ?thesis by (rule Suc.IH)
    qed
  qed
  then show ?case using f check_unique_names [of L1 L name] by simp
qed

lemma gen_name_accepts:
  assumes "gen_name G cap n L pool g = Returns (name, L', g')"
  shows "min_char L \<le> length name \<and> length name \<le> max_char L * 2 \<and> check_unique L name
     \<and> names L' = set_add pool name (names L)
     \<and> min_char L' = min_char L \<and> max_char L' = max_char L"
proof -
  from assms obtain gen L1 g1 where
    a: "get_morpheme G n L (Some (str ''of'')) g = Returns (gen, L1, g1)" and
    b: "bind (get_morpheme G n L1 (Some (str ''the'')) g1) (\<lambda>(definitive, L2, g2).
         gen_name_while G cap n L2 pool gen definitive g2) = Returns (name, L', g')"
    unfolding gen_name_def by - (erule bind_ReturnsE, auto)
  from b obtain def L2 g2 where
    c: "get_morpheme G n L1 (Some (str ''the'')) g1 = Returns (def, L2, g2)" and
    d: "gen_name_while G cap n L2 pool gen def g2 = Returns (name, L', g')"
    by (rule bind_ReturnsE) auto
  from get_morpheme_frame [OF a] get_morpheme_frame [OF c] have
    f: "names L2 = names L" "min_char L2 = min_char L" "max_char L2 = max_char L"
    by simp_all
  from gen_name_while_accepts [OF d] show ?thesis
    using f check_unique_names [of L2 L name] by simp
qed

text \<open>The name sets after an acceptance.\<close>

lemma map_of_set_add:
  "map_of (set_add pool x d) = (map_of d)(pool \<mapsto> insert x (dd_get {} pool d))"
  by (auto simp: set_add_def dd_touch_def dd_get_def Let_def update_conv' map_add_def
      split: option.splits)

lemma stored_set_add:
  "stored (set_add pool x d) p n \<longleftrightarrow> stored d p n \<or> (p = pool \<and> n = x)"
  by (auto simp: stored_def map_of_set_add dd_get_def split: option.splits)

lemma stored_Nil: "\<not> stored [] p n"
  by (simp add: stored_def)

lemma check_unique_stored:
  assumes "check_unique L x" "stored (names L) p n"
  shows "\<not> sublist x n \<and> \<not> sublist n x"
proof -
  from assms(2) obtain cat where c: "map_of (names L) p = Some cat" "n \<in> cat"
    by (auto simp: stored_def)
  from c(1) have "(p, cat) \<in> set (names L)" by (rule map_of_SomeD)
  then have "cat \<in> set (dict_values (names L))" by (force simp: dict_values_def)
  with assms(1) c(2) show ?thesis by (auto simp: check_unique_def)
qed

lemma substring_free_set_add:
  assumes "substring_free (names L)" "check_unique L x"
  shows "substring_free (set_add pool x (names L))"
  unfolding substring_free_def
proof (intro allI impI)
  fix p1 n1 p2 n2
  assume h: "stored (set_add pool x (names L)) p1 n1 \<and> stored (set_add pool x (names L)) p2 n2
      \<and> (p1, n1) \<noteq> (p2, n2)"
  then consider
      (old) "stored (names L) p1 n1" "stored (names L) p2 n2"
    | (new1) "p1 = pool" "n1 = x" "stored (names L) p2 n2"
    | (new2) "stored (names L) p1 n1" "p2 = pool" "n2 = x"
    by (auto simp: stored_set_add)
  then show "\<not> sublist n1 n2"
  proof cases
    case old
    with assms(1) h show ?thesis unfolding substring_free_def by blast
  next
    case new1
    with check_unique_stored [OF assms(2) new1(3)] show ?thesis by simp
  next
    case new2
    with check_unique_stored [OF assms(2) new2(1)] show ?thesis by simp
  qed
qed


lemma gen_name_calls_step:
  assumes "gen_name_calls G cap n L (pool # pools) g = Returns (ns, L', g')"
  obtains name L1 g1 ns1 where
    "gen_name G cap n L pool g = Returns (name, L1, g1)"
    "gen_name_calls G cap n L1 pools g1 = Returns (ns1, L', g')"
    "ns = name # ns1"
proof -
  from assms obtain name L1 g1 where
    a: "gen_name G cap n L pool g = Returns (name, L1, g1)" and
    b: "bind (gen_name_calls G cap n L1 pools g1) (\<lambda>(ns, L2, g2). Returns (name # ns, L2, g2))
          = Returns (ns, L', g')"
    by (simp only: gen_name_calls.simps) (erule bind_ReturnsE, auto)
  from b obtain ns1 where
    "gen_name_calls G cap n L1 pools g1 = Returns (ns1, L', g')" "ns = name # ns1"
    by (rule bind_ReturnsE) auto
  with a that show thesis by blast
qed

lemma gen_name_calls_bounds:
  "gen_name_calls G cap n L pools g = Returns (ns, L', g') \<Longrightarrow>
     (\<forall>name \<in> set ns. min_char L \<le> length name \<and> length name \<le> max_char L * 2)"
proof (induction pools arbitrary: L g ns)
  case Nil
  then show ?case by simp
next
  case (Cons pool pools)
  from Cons.prems obtain name L1 g1 ns1 where
    a: "gen_name G cap n L pool g = Returns (name, L1, g1)" and
    b: "gen_name_calls G cap n L1 pools g1 = Returns (ns1, L', g')" and
    c: "ns = name # ns1"
    by (rule gen_name_calls_step)
  from gen_name_accepts [OF a] Cons.IH [OF b] c show ?case by simp
qed

lemma gen_name_calls_names:
  "substring_free (names L) \<Longrightarrow> gen_name_calls G cap n L pools g = Returns (ns, L', g') \<Longrightarrow>
     substring_free (names L')
     \<and> (\<forall>p nm. stored (names L') p nm \<longleftrightarrow> stored (names L) p nm \<or> (p, nm) \<in> set (zip pools ns))"
proof (induction pools arbitrary: L g ns)
  case Nil
  then show ?case by simp
next
  case (Cons pool pools)
  from Cons.prems(2) obtain name L1 g1 ns1 where
    a: "gen_name G cap n L pool g = Returns (name, L1, g1)" and
    b: "gen_name_calls G cap n L1 pools g1 = Returns (ns1, L', g')" and
    c: "ns = name # ns1"
    by (rule gen_name_calls_step)
  from gen_name_accepts [OF a] have
    u: "check_unique L name" and n1: "names L1 = set_add pool name (names L)"
    by simp_all
  from substring_free_set_add [OF Cons.prems(1) u] n1 have "substring_free (names L1)"
    by simp
  from Cons.IH [OF this b] show ?case
    using c n1 by (auto simp: stored_set_add)
qed

lemma two_names_run:
  "gen_name_calls module_init capitalize_ascii (Suc (Suc (Suc (Suc 0))))
     (BasicLanguage_init [(str ''C'', str ''pt''), (str ''V'', str ''a'')] (str ''CVC'')
       (Some \<lparr>c_ortho = None, v_ortho = None, joiner = str '' ''\<rparr>) 1 1 RESTRICTIONS)
     [Some (str ''city''), Some (str ''land'')] two_names_rng
   = Returns ([str ''pap Pap'', str ''Tap''],
       lang_pta
         \<lparr>morphemes := [(Some (str ''of''), [str ''pap'']), (Some (str ''the''), [str ''pap'']),
                         (Some (str ''city''), [str ''pap'']), (Some (str ''land''), [str ''tap''])],
          words := [(Some (str ''city''), [str ''pap'']), (Some (str ''land''), [str ''tap''])],
          names := [(Some (str ''city''), {str ''pap Pap''}), (Some (str ''land''), {str ''Tap''})]\<rparr>,
       sconst 0)"
  by (simp add: eval cong: eval_cong)

text \<open>
  C6. Every name returned by a \<open>gen_name\<close> call on a constructed language has a length
  between \<open>min_char\<close> and \<open>max_char * 2\<close>, where \<open>min_char\<close> is the length of the
  pattern plus one and \<open>max_char\<close> four times that length when the pattern is shorter
  than 3, and the length and three times the length otherwise.
\<close>

theorem gen_name_length_bounds:
  assumes "gen_name_calls G cap n (BasicLanguage_init ph sy ort mn mx rs) pools g
             = Returns (ns, L', g')"
    and "name \<in> set ns"
  shows "(if length sy < 3 then length sy + 1 else length sy) \<le> length name
       \<and> length name \<le> (if length sy < 3 then length sy * 4 else length sy * 3) * 2"
  using gen_name_calls_bounds [OF assms(1)] assms(2)
  by (simp add: BasicLanguage_init_def)

theorem gen_name_length_bounds_witness:
  "(\<exists>L' g'. gen_name_calls module_init capitalize_ascii (Suc (Suc (Suc (Suc 0))))
       (BasicLanguage_init [(str ''C'', str ''pt''), (str ''V'', str ''a'')] (str ''CVC'')
         (Some \<lparr>c_ortho = None, v_ortho = None, joiner = str '' ''\<rparr>) 1 1 RESTRICTIONS)
       [Some (str ''city''), Some (str ''land'')] two_names_rng
     = Returns ([str ''pap Pap'', str ''Tap''], L', g'))
   \<and> str ''Tap'' \<in> set [str ''pap Pap'', str ''Tap'']
   \<and> 3 \<le> length (str ''Tap'') \<and> length (str ''Tap'') \<le> 18"
  using two_names_run gen_name_length_bounds [OF two_names_run, of "str ''Tap''"]
  by (simp add: str_simps)

text \<open>
  C1. After every sequence of \<open>gen_name\<close> calls on a constructed language no stored
  name is a substring of another stored name, in any pool, and the stored names are the
  names the calls returned, each under the pool of its call: a name enters a name set
  only in the acceptance branch, after \<open>check_unique\<close>.
\<close>

theorem stored_names_substring_free:
  assumes "gen_name_calls G cap n (BasicLanguage_init ph sy ort mn mx rs) pools g
             = Returns (ns, L', g')"
  shows "substring_free (names L')
       \<and> (\<forall>p name. stored (names L') p name \<longleftrightarrow> (p, name) \<in> set (zip pools ns))"
proof -
  have "substring_free (names (BasicLanguage_init ph sy ort mn mx rs))"
    by (simp add: substring_free_def BasicLanguage_init_def stored_Nil)
  from gen_name_calls_names [OF this assms] show ?thesis
    by (simp add: BasicLanguage_init_def stored_Nil)
qed

theorem stored_names_substring_free_witness:
  "(\<exists>L' g'. gen_name_calls module_init capitalize_ascii (Suc (Suc (Suc (Suc 0))))
       (BasicLanguage_init [(str ''C'', str ''pt''), (str ''V'', str ''a'')] (str ''CVC'')
         (Some \<lparr>c_ortho = None, v_ortho = None, joiner = str '' ''\<rparr>) 1 1 RESTRICTIONS)
       [Some (str ''city''), Some (str ''land'')] two_names_rng
     = Returns ([str ''pap Pap'', str ''Tap''], L', g')
     \<and> substring_free (names L')
     \<and> stored (names L') (Some (str ''city'')) (str ''pap Pap'')
     \<and> stored (names L') (Some (str ''land'')) (str ''Tap''))"
  using two_names_run stored_names_substring_free [OF two_names_run]
  by simp

end
